theory Spec2Isabelle
  imports Main "HOL-Library.Sublist" "HOL-Library.AList"
begin

section \<open>Go strings\<close>

text \<open>
  A Go \<open>string\<close> is a sequence of bytes; it is modelled as \<^typ>\<open>string\<close>, a list of
  8-bit characters. \<open>len(s)\<close> is \<^term>\<open>length s\<close> and \<open>s[:n]\<close> is \<^term>\<open>take n s\<close>.
  The functions of package \<open>strings\<close> that the program calls are written out below,
  following the library's own algorithms.
\<close>

definition HasPrefix :: "string \<Rightarrow> string \<Rightarrow> bool" where
  "HasPrefix s pre = prefix pre s"

definition TrimPrefix :: "string \<Rightarrow> string \<Rightarrow> string" where
  "TrimPrefix s pre = (if HasPrefix s pre then drop (length pre) s else s)"

text \<open>\<open>strings.Index(s, sep)\<close>: the position of the first occurrence of \<open>sep\<close>, if any.\<close>

fun Index :: "string \<Rightarrow> string \<Rightarrow> nat option" where
  "Index [] sep = (if sep = [] then Some 0 else None)"
| "Index (c # cs) sep =
     (if prefix sep (c # cs) then Some 0 else map_option Suc (Index cs sep))"

definition Contains :: "string \<Rightarrow> string \<Rightarrow> bool" where
  "Contains s sub = (Index s sub \<noteq> None)"

lemma Index_bound: "Index s sep = Some m \<Longrightarrow> m + length sep \<le> length s"
proof (induction s arbitrary: m)
  case Nil
  then show ?case by (simp split: if_splits)
next
  case (Cons c cs)
  show ?case
  proof (cases "prefix sep (c # cs)")
    case True
    with Cons.prems show ?thesis by (auto dest: prefix_length_le)
  next
    case False
    with Cons.prems obtain k where "Index cs sep = Some k" "m = Suc k" by auto
    with Cons.IH show ?thesis by fastforce
  qed
qed

text \<open>
  \<open>strings.Split(s, sep)\<close> for a non-empty separator, as \<open>genSplit\<close> computes it: cut at
  the first occurrence, continue behind it, and end with the remainder. Every call of
  the program passes a non-empty literal separator; for the empty separator (where Go
  explodes the text into its characters) the model returns the text unsplit.
\<close>

function Split :: "string \<Rightarrow> string \<Rightarrow> string list" where
  "Split s sep =
     (if sep = [] then [s]
      else case Index s sep of
             None \<Rightarrow> [s]
           | Some m \<Rightarrow> take m s # Split (drop (m + length sep) s) sep)"
  by pat_completeness auto
termination
proof (relation "measure (\<lambda>(s, sep). length s)")
  show "wf (measure (\<lambda>(s, sep). length s))" by simp
next
  fix s sep :: string and m
  assume "sep \<noteq> []" and "Index s sep = Some m"
  from Index_bound [OF this(2)] \<open>sep \<noteq> []\<close>
  have "0 < length s" by (cases s) auto
  with \<open>sep \<noteq> []\<close> show "((drop (m + length sep) s, sep), (s, sep)) \<in> measure (\<lambda>(s, sep). length s)"
    by (cases sep) auto
qed

declare Split.simps [simp del]

text \<open>\<open>strings.Join(elems, sep)\<close>.\<close>

fun Join :: "string list \<Rightarrow> string \<Rightarrow> string" where
  "Join [] sep = []"
| "Join [x] sep = x"
| "Join (x # y # ys) sep = x @ sep @ Join (y # ys) sep"

subsection \<open>White space\<close>

text \<open>
  \<open>strings.TrimSpace\<close> removes leading and trailing white space as \<open>unicode.IsSpace\<close>
  defines it, decoding the text as UTF-8. A white-space code point is one of the six
  ASCII characters tab, line feed, vertical tab, form feed, carriage return and space,
  or one of U+0085, U+00A0, U+1680, U+2000..U+200A, U+2028, U+2029, U+202F, U+205F and
  U+3000. \<open>spaceRunes\<close> lists their UTF-8 encodings. A byte sequence that is not valid
  UTF-8 decodes to the replacement character one byte at a time, which is no white
  space, so trimming removes exactly the encodings below from either end.
\<close>

definition spaceRunes :: "string list" where
  "spaceRunes =
     [[CHR 0x09], [CHR 0x0A], [CHR 0x0B], [CHR 0x0C], [CHR 0x0D], [CHR 0x20],
      [CHR 0xC2, CHR 0x85], [CHR 0xC2, CHR 0xA0],
      [CHR 0xE1, CHR 0x9A, CHR 0x80],
      [CHR 0xE2, CHR 0x80, CHR 0x80], [CHR 0xE2, CHR 0x80, CHR 0x81],
      [CHR 0xE2, CHR 0x80, CHR 0x82], [CHR 0xE2, CHR 0x80, CHR 0x83],
      [CHR 0xE2, CHR 0x80, CHR 0x84], [CHR 0xE2, CHR 0x80, CHR 0x85],
      [CHR 0xE2, CHR 0x80, CHR 0x86], [CHR 0xE2, CHR 0x80, CHR 0x87],
      [CHR 0xE2, CHR 0x80, CHR 0x88], [CHR 0xE2, CHR 0x80, CHR 0x89],
      [CHR 0xE2, CHR 0x80, CHR 0x8A],
      [CHR 0xE2, CHR 0x80, CHR 0xA8], [CHR 0xE2, CHR 0x80, CHR 0xA9],
      [CHR 0xE2, CHR 0x80, CHR 0xAF],
      [CHR 0xE2, CHR 0x81, CHR 0x9F],
      [CHR 0xE3, CHR 0x80, CHR 0x80]]"

text \<open>The number of bytes of the white-space code point at the front of a text; 0 if none.\<close>

definition spaceWidth :: "string \<Rightarrow> nat" where
  "spaceWidth s = (case find (\<lambda>w. prefix w s) spaceRunes of None \<Rightarrow> 0 | Some w \<Rightarrow> length w)"

text \<open>The same at the end of a text.\<close>

definition spaceWidthLast :: "string \<Rightarrow> nat" where
  "spaceWidthLast s = (case find (\<lambda>w. suffix w s) spaceRunes of None \<Rightarrow> 0 | Some w \<Rightarrow> length w)"

lemma spaceWidth_le: "spaceWidth s \<le> length s"
  by (auto simp: spaceWidth_def split: option.splits dest!: find_Some_iff [THEN iffD1] prefix_length_le)

lemma spaceWidthLast_le: "spaceWidthLast s \<le> length s"
  by (auto simp: spaceWidthLast_def split: option.splits dest!: find_Some_iff [THEN iffD1] suffix_length_le)

function TrimLeftSpace :: "string \<Rightarrow> string" where
  "TrimLeftSpace s = (if spaceWidth s = 0 then s else TrimLeftSpace (drop (spaceWidth s) s))"
  by pat_completeness auto
termination
proof (relation "measure length")
  show "wf (measure length)" by simp
next
  fix s :: string
  assume "spaceWidth s \<noteq> 0"
  with spaceWidth_le [of s] show "(drop (spaceWidth s) s, s) \<in> measure length"
    by (cases s) auto
qed

function TrimRightSpace :: "string \<Rightarrow> string" where
  "TrimRightSpace s =
     (if spaceWidthLast s = 0 then s
      else TrimRightSpace (take (length s - spaceWidthLast s) s))"
  by pat_completeness auto
termination
proof (relation "measure length")
  show "wf (measure length)" by simp
next
  fix s :: string
  assume "spaceWidthLast s \<noteq> 0"
  with spaceWidthLast_le [of s] show "(take (length s - spaceWidthLast s) s, s) \<in> measure length"
    by (cases s) auto
qed

declare TrimLeftSpace.simps [simp del] TrimRightSpace.simps [simp del]

definition TrimSpace :: "string \<Rightarrow> string" where
  "TrimSpace s = TrimRightSpace (TrimLeftSpace s)"

text \<open>
  \<open>fmt.Sprintf("%d", n)\<close> for a length, which is never negative: the decimal digits.
\<close>

function Itoa :: "nat \<Rightarrow> string" where
  "Itoa n = (if n < 10 then [char_of (48 + n)] else Itoa (n div 10) @ [char_of (48 + n mod 10)])"
  by pat_completeness auto
termination
  by (relation "measure id") auto

declare Itoa.simps [simp del]

section \<open>Data\<close>

text \<open>\<open>internal/git\<close>: a staged file and its diff.\<close>

record FileChange =
  Path :: string
  Status :: string
  Diff :: string

text \<open>\<open>internal/config\<close>: the configuration.\<close>

record Config =
  GeminiAPIKey :: string
  Language :: string
  CommitStyle :: string
  MaxTokens :: int
  Model :: string

text \<open>\<open>internal/ai\<close>: the reply envelope of the backend, as \<open>json.Unmarshal\<close> fills it.\<close>

record geminiPart =
  Text :: string

record geminiContent =
  Parts :: "geminiPart list"

record geminiCandidate =
  Content :: geminiContent

record geminiError =
  Message :: string

record geminiResponse =
  Candidates :: "geminiCandidate list"
  Error :: "geminiError option"

text \<open>
  A Go \<open>error\<close> built by \<open>fmt.Errorf\<close> is its message. A Go \<open>map[string]string\<close> is an
  association list with one pair per key: \<open>m[k] = v\<close> is \<^term>\<open>AList.update k v m\<close>,
  \<open>len(m)\<close> is \<^term>\<open>length m\<close> and a lookup is \<^term>\<open>map_of m k\<close>.
\<close>

type_synonym error = string

type_synonym gomap = "(string \<times> string) list"

section \<open>Backend client\<close>

text \<open>
  What the outside world hands to \<open>callGemini\<close>: the HTTP POST fails, or reading the
  body fails, or a body arrives. \<open>json.Unmarshal\<close> into \<open>geminiResponse\<close> is a parameter.
  (Marshalling the request cannot fail: it holds a string, a float and an int.)
\<close>

datatype exchange = PostError error | ReadError error | Body string

definition callGemini :: "(string \<Rightarrow> error + geminiResponse) \<Rightarrow> exchange \<Rightarrow> error + string" where
  "callGemini unmarshal ex =
     (case ex of
        PostError err \<Rightarrow> Inl (''request to Gemini failed: '' @ err)
      | ReadError err \<Rightarrow> Inl err
      | Body data \<Rightarrow>
          (case unmarshal data of
             Inl err \<Rightarrow> Inl (''failed to parse Gemini response: '' @ err @ ''\<newline>Body: '' @ data)
           | Inr gemResp \<Rightarrow>
               (case Error gemResp of
                  Some e \<Rightarrow> Inl (''Gemini API error: '' @ Message e)
                | None \<Rightarrow>
                    if length (Candidates gemResp) = 0
                       \<or> length (Parts (Content (Candidates gemResp ! 0))) = 0
                    then Inl ''empty response from Gemini''
                    else Inr (Text (Parts (Content (Candidates gemResp ! 0)) ! 0)))))"

text \<open>The loop of \<open>SuggestNextVersion\<close> over the lines of the trimmed reply.\<close>

fun versionLine :: "string list \<Rightarrow> string option" where
  "versionLine [] = None"
| "versionLine (l0 # ls) =
     (let l = TrimSpace l0 in
      if HasPrefix l ''v''
         \<or> (length l > 0 \<and> of_char (CHR ''0'') \<le> (of_char (l ! 0) :: nat)
                          \<and> (of_char (l ! 0) :: nat) \<le> of_char (CHR ''9''))
      then Some (TrimPrefix l ''v'')
      else versionLine ls)"

definition SuggestNextVersion ::
  "(string \<Rightarrow> error + geminiResponse) \<Rightarrow> exchange \<Rightarrow> error + string" where
  "SuggestNextVersion unmarshal ex =
     (case callGemini unmarshal ex of
        Inl err \<Rightarrow> Inl err
      | Inr raw \<Rightarrow>
          (case versionLine (Split (TrimSpace raw) ''\<newline>'') of
             Some v \<Rightarrow> Inr v
           | None \<Rightarrow> Inr (TrimSpace raw)))"

section \<open>Prompt builder\<close>

text \<open>The \<open>strings.Builder\<close> is the text written so far.\<close>

definition WriteString :: "string \<Rightarrow> string \<Rightarrow> string" where
  "WriteString sb s = sb @ s"

definition writeGranularChange :: "string \<Rightarrow> FileChange \<Rightarrow> string" where
  "writeGranularChange sb0 c =
     (let sb = WriteString sb0 (''FILE: '' @ Path c @ '' (status: '' @ Status c @ '')\<newline>'');
          sb = (if Diff c \<noteq> [] then
                  let diff = Diff c;
                      diff = (if length diff > 3000
                              then take 3000 diff @ ''\<newline>... (truncated)'' else diff);
                      sb = WriteString sb ''DIFF:\<newline>```\<newline>'';
                      sb = WriteString sb diff
                  in WriteString sb ''\<newline>```\<newline>''
                else sb)
      in WriteString sb ''\<newline>'')"

definition writeSingleChange :: "string \<Rightarrow> FileChange \<Rightarrow> string" where
  "writeSingleChange sb0 c =
     (let sb = WriteString sb0 (''FILE: '' @ Path c @ '' (status: '' @ Status c @ '')\<newline>'');
          sb = (if Diff c \<noteq> [] then
                  let diff = Diff c;
                      diff = (if length diff > 2000
                              then take 2000 diff @ ''\<newline>... (truncated)'' else diff);
                      sb = WriteString sb ''```\<newline>'';
                      sb = WriteString sb diff
                  in WriteString sb ''\<newline>```\<newline>''
                else sb)
      in WriteString sb ''\<newline>'')"

definition buildCommitPrompt ::
  "Config \<Rightarrow> FileChange list \<Rightarrow> bool \<Rightarrow> string list \<Rightarrow> string" where
  "buildCommitPrompt cfg changes granular recentCommits =
     (let style = CommitStyle cfg;
          lang = Language cfg;
          sb = WriteString [] ''You are an expert developer writing git commit messages.\<newline>\<newline>'';
          sb = (if style = ''conventional'' then
                  WriteString
                    (WriteString sb ''Use Conventional Commits format: <type>(<scope>): <description>\<newline>'')
                    ''Types: feat, fix, docs, style, refactor, test, chore, perf, ci, build\<newline>\<newline>''
                else sb);
          sb = (if lang = ''pt'' \<or> lang = ''pt-br''
                then WriteString sb ''Write commit messages in Portuguese (pt-BR).\<newline>\<newline>''
                else WriteString sb ''Write commit messages in English.\<newline>\<newline>'');
          sb = (if length recentCommits > 0 then
                  WriteString
                    (foldl (\<lambda>sb c. WriteString sb (''  '' @ c @ ''\<newline>''))
                       (WriteString sb ''Recent commits for context:\<newline>'') recentCommits)
                    ''\<newline>''
                else sb)
      in if granular then
           let sb = WriteString sb (''I have '' @ Itoa (length changes)
                      @ '' staged file(s). Generate ONE commit message per file.\<newline>'');
               sb = WriteString sb ''Rules:\<newline>'';
               sb = WriteString sb ''- Each message must be concise (max 72 chars for subject line)\<newline>'';
               sb = WriteString sb ''- Add a blank line then a short body if needed\<newline>'';
               sb = WriteString sb ''- Output format must be EXACTLY:\<newline>\<newline>'';
               sb = WriteString sb ''FILE: <filepath>\<newline>MESSAGE:\<newline><commit message>\<newline>---\<newline>\<newline>'';
               sb = WriteString sb ''Now here are the diffs:\<newline>\<newline>''
           in foldl writeGranularChange sb changes
         else
           let sb = WriteString sb ''Generate ONE single commit message that summarizes ALL the following staged changes.\<newline>'';
               sb = WriteString sb ''Rules:\<newline>'';
               sb = WriteString sb ''- Subject line: max 72 chars\<newline>'';
               sb = WriteString sb ''- Add a blank line then bullet points listing key changes if there are multiple files\<newline>'';
               sb = WriteString sb ''- Output ONLY the commit message, nothing else.\<newline>\<newline>'';
               sb = WriteString sb ''Staged changes:\<newline>\<newline>''
           in foldl writeSingleChange sb changes)"

section \<open>Response parser\<close>

text \<open>
  The state of the scan over the lines of one block: \<open>filePath\<close>, \<open>message\<close> and
  \<open>inMessage\<close>. \<open>scanLine\<close> is the body of the inner loop.
\<close>

definition scanLine :: "string \<times> string \<times> bool \<Rightarrow> string \<Rightarrow> string \<times> string \<times> bool" where
  "scanLine st line =
     (case st of (filePath, message, inMessage) \<Rightarrow>
        if HasPrefix line ''FILE:'' then
          (TrimSpace (TrimPrefix line ''FILE:''), message, False)
        else if HasPrefix line ''MESSAGE:'' then
          (let rest = TrimSpace (TrimPrefix line ''MESSAGE:'')
           in (filePath, if rest \<noteq> [] then rest else message, True))
        else if inMessage then
          (filePath, if message = [] then line else message @ ''\<newline>'' @ line, inMessage)
        else (filePath, message, inMessage))"

definition scanBlock :: "string \<Rightarrow> string \<times> string \<times> bool" where
  "scanBlock block = foldl scanLine ([], [], False) (Split block ''\<newline>'')"

text \<open>The body of the outer loop: one piece between two \<open>---\<close>.\<close>

definition parseBlock :: "gomap \<Rightarrow> string \<Rightarrow> gomap" where
  "parseBlock result block0 =
     (let block = TrimSpace block0 in
      if block = [] then result
      else case scanBlock block of (filePath, message, inMessage) \<Rightarrow>
             if filePath \<noteq> [] \<and> message \<noteq> []
             then AList.update filePath (TrimSpace message) result
             else result)"

definition parseCommitResponse :: "string \<Rightarrow> FileChange list \<Rightarrow> bool \<Rightarrow> gomap" where
  "parseCommitResponse raw changes granular =
     (if \<not> granular then AList.update ''__all__'' (TrimSpace raw) []
      else
        let result = foldl parseBlock [] (Split raw ''---'')
        in if length result = 0 \<and> length changes > 0
           then foldl (\<lambda>result c. AList.update (Path c) (TrimSpace raw) result) result changes
           else result)"

text \<open>
  \<open>GenerateCommitMessages\<close>: one exchange with the backend, then the parser. (The prompt
  goes out with the request; the reply is what the exchange brings back.)
\<close>

definition GenerateCommitMessages ::
  "(string \<Rightarrow> error + geminiResponse) \<Rightarrow> exchange \<Rightarrow> FileChange list \<Rightarrow> bool \<Rightarrow> error + gomap" where
  "GenerateCommitMessages unmarshal ex changes granular =
     (case callGemini unmarshal ex of
        Inl err \<Rightarrow> Inl err
      | Inr raw \<Rightarrow> Inr (parseCommitResponse raw changes granular))"

text \<open>
  What the parser captures from a reply, block by block: the \<open>filePath\<close> and
  \<open>message\<close> that \<open>scanBlock\<close> ends with, for every piece between two \<open>---\<close> that is
  not empty after trimming, in the order of the reply. \<open>putCapture\<close> is the store at the
  end of the outer loop's body.
\<close>

definition blockCaptures :: "string \<Rightarrow> (string \<times> string) list" where
  "blockCaptures raw =
     map (\<lambda>block. case scanBlock block of (filePath, message, inMessage) \<Rightarrow> (filePath, message))
       (filter (\<lambda>block. block \<noteq> []) (map TrimSpace (Split raw ''---'')))"

definition putCapture :: "gomap \<Rightarrow> string \<times> string \<Rightarrow> gomap" where
  "putCapture result cap =
     (if fst cap \<noteq> [] \<and> snd cap \<noteq> [] then AList.update (fst cap) (TrimSpace (snd cap)) result
      else result)"

section \<open>Diff splitting\<close>

text \<open>
  The state of the scan over the lines of the combined diff: \<open>result\<close>, \<open>currentFile\<close>
  and \<open>currentLines\<close>.
\<close>

definition flushSection :: "gomap \<Rightarrow> string \<Rightarrow> string list \<Rightarrow> gomap" where
  "flushSection result currentFile currentLines =
     (if currentFile \<noteq> [] \<and> length currentLines > 0
      then AList.update currentFile (Join currentLines ''\<newline>'') result
      else result)"

definition diffLine :: "gomap \<times> string \<times> string list \<Rightarrow> string \<Rightarrow> gomap \<times> string \<times> string list" where
  "diffLine st line =
     (case st of (result, currentFile, currentLines) \<Rightarrow>
        if HasPrefix line ''diff --git '' then
          (let result = flushSection result currentFile currentLines;
               parts = Split line '' b/'';
               currentFile = (if length parts \<ge> 2 then parts ! (length parts - 1) else currentFile)
           in (result, currentFile, [line]))
        else (result, currentFile, currentLines @ [line]))"

definition splitDiffByFile :: "string \<Rightarrow> gomap" where
  "splitDiffByFile diff =
     (case foldl diffLine ([], [], []) (Split diff ''\<newline>'') of
        (result, currentFile, currentLines) \<Rightarrow> flushSection result currentFile currentLines)"

section \<open>Configuration file\<close>

definition ConfigFileName :: string where
  "ConfigFileName = ''.commitai.json''"

definition EnvAPIKey :: string where
  "EnvAPIKey = ''GEMINI_API_KEY''"

text \<open>
  What \<open>Save\<close> reads from the operating system and the library: the result of
  \<open>os.UserHomeDir\<close>, the environment (\<open>os.Getenv\<close> gives the empty text for an unset
  variable), \<open>json.MarshalIndent\<close> on a \<open>Config\<close> and \<open>filepath.Join\<close>.
\<close>

record system =
  UserHomeDir :: "error + string"
  Getenv :: "string \<Rightarrow> string"
  MarshalIndent :: "Config \<Rightarrow> error + string"
  FilepathJoin :: "string \<Rightarrow> string \<Rightarrow> string"

text \<open>
  \<open>Save\<close> either returns an error before it writes, or calls \<open>os.WriteFile\<close> with a
  path and the data; the result is that call.
\<close>

datatype saved = WriteFile string string

definition Save :: "system \<Rightarrow> Config \<Rightarrow> error + saved" where
  "Save sys cfg =
     (case UserHomeDir sys of
        Inl err \<Rightarrow> Inl err
      | Inr home \<Rightarrow>
          (let saveCfg = (if Getenv sys EnvAPIKey \<noteq> [] then cfg\<lparr>GeminiAPIKey := []\<rparr> else cfg)
           in case MarshalIndent sys saveCfg of
                Inl err \<Rightarrow> Inl err
              | Inr data \<Rightarrow> Inr (WriteFile (FilepathJoin sys home ConfigFileName) data)))"

section \<open>Notions used in the statements\<close>

text \<open>A text that starts with \<open>v\<close> or with a decimal digit.\<close>

definition startsWithVOrDigit :: "string \<Rightarrow> bool" where
  "startsWithVOrDigit t =
     (case t of
        [] \<Rightarrow> False
      | c # cs \<Rightarrow> c = CHR ''v'' \<or> c \<in> set ''0123456789'')"

section \<open>Lemmas about splitting and joining\<close>

lemma Index_first:
  assumes "sep \<noteq> []"
    and "\<forall>i < length x. \<not> prefix sep (drop i (x @ sep @ r))"
  shows "Index (x @ sep @ r) sep = Some (length x)"
  using assms(2)
proof (induction x)
  case Nil
  have "prefix sep (sep @ r)" by simp
  with assms(1) show ?case by (cases "sep @ r") auto
next
  case (Cons c cs)
  from Cons.prems have "\<not> prefix sep ((c # cs) @ sep @ r)"
    by (metis drop0 length_greater_0_conv list.discI)
  moreover have "\<forall>i < length cs. \<not> prefix sep (drop i (cs @ sep @ r))"
  proof (intro allI impI)
    fix i assume "i < length cs"
    with Cons.prems have "\<not> prefix sep (drop (Suc i) ((c # cs) @ sep @ r))" by auto
    then show "\<not> prefix sep (drop i (cs @ sep @ r))" by simp
  qed
  ultimately show ?case using Cons.IH by simp
qed

lemma Index_None:
  assumes "sep \<noteq> []" and "\<forall>i < length s. \<not> prefix sep (drop i s)"
  shows "Index s sep = None"
  using assms(2)
proof (induction s)
  case Nil
  with assms(1) show ?case by simp
next
  case (Cons c cs)
  from Cons.prems have "\<not> prefix sep (c # cs)"
    by (metis drop0 length_greater_0_conv list.discI)
  moreover have "\<forall>i < length cs. \<not> prefix sep (drop i cs)"
  proof (intro allI impI)
    fix i assume "i < length cs"
    with Cons.prems have "\<not> prefix sep (drop (Suc i) (c # cs))" by auto
    then show "\<not> prefix sep (drop i cs)" by simp
  qed
  ultimately show ?case using Cons.IH by simp
qed

lemma Index_None_drop:
  "Index s sep = None \<Longrightarrow> \<not> prefix sep (drop i s)"
proof (induction s arbitrary: i)
  case Nil
  then show ?case by (simp split: if_splits)
next
  case (Cons c cs)
  then show ?case by (cases i) (auto split: if_splits)
qed

lemma Split_first:
  assumes "sep \<noteq> []"
    and "\<forall>i < length x. \<not> prefix sep (drop i (x @ sep @ r))"
  shows "Split (x @ sep @ r) sep = x # Split r sep"
  using Index_first [OF assms] assms(1)
  by (subst Split.simps) simp

lemma Split_none:
  assumes "sep \<noteq> []" and "\<forall>i < length s. \<not> prefix sep (drop i s)"
  shows "Split s sep = [s]"
  using Index_None [OF assms] assms(1)
  by (subst Split.simps) simp

lemma no_newline_prefix:
  "CHR ''\<newline>'' \<notin> set x \<Longrightarrow> i < length x \<Longrightarrow> \<not> prefix ''\<newline>'' (drop i (x @ r))"
proof (induction x arbitrary: i)
  case Nil
  then show ?case by simp
next
  case (Cons c cs)
  then show ?case by (cases i) auto
qed

lemma Split_line:
  assumes "CHR ''\<newline>'' \<notin> set x"
  shows "Split (x @ CHR ''\<newline>'' # r) ''\<newline>'' = x # Split r ''\<newline>''"
proof -
  have "\<forall>i < length x. \<not> prefix ''\<newline>'' (drop i (x @ ''\<newline>'' @ r))"
    using no_newline_prefix [OF assms] by blast
  then have "Split (x @ ''\<newline>'' @ r) ''\<newline>'' = x # Split r ''\<newline>''"
    by (intro Split_first) simp_all
  then show ?thesis by simp
qed

lemma Split_last_line:
  assumes "CHR ''\<newline>'' \<notin> set x"
  shows "Split x ''\<newline>'' = [x]"
proof -
  have "\<forall>i < length x. \<not> prefix ''\<newline>'' (drop i x)"
    using no_newline_prefix [OF assms, of _ "[]"] by simp
  then show ?thesis by (intro Split_none) simp_all
qed

lemma Split_Join_lines:
  "ls \<noteq> [] \<Longrightarrow> \<forall>l \<in> set ls. CHR ''\<newline>'' \<notin> set l \<Longrightarrow>
     Split (Join ls ''\<newline>'') ''\<newline>'' = ls"
proof (induction ls "''\<newline>''" rule: Join.induct)
  case 1
  then show ?case by simp
next
  case (2 x)
  then show ?case by (simp add: Split_last_line)
next
  case (3 x y ys)
  then show ?case by (simp add: Split_line)
qed

section \<open>Lemmas about the parser\<close>

lemma map_of_fallback:
  "map_of (foldl (\<lambda>result c. AList.update (Path c) v result) r changes) k =
     (if k \<in> Path ` set changes then Some v else map_of r k)"
  by (induction changes arbitrary: r) (auto simp: update_conv')

lemma keys_fallback:
  "fst ` set (foldl (\<lambda>result c. AList.update (Path c) v result) r changes) =
     fst ` set r \<union> Path ` set changes"
proof -
  have "dom (map_of (foldl (\<lambda>result c. AList.update (Path c) v result) r changes)) =
          dom (map_of r) \<union> Path ` set changes"
    by (auto simp: map_of_fallback dom_def split: if_splits)
  then show ?thesis by (simp add: dom_map_of_conv_image_fst)
qed

lemma foldl_parseBlock:
  "foldl parseBlock r xs =
     foldl putCapture r
       (map (\<lambda>block. case scanBlock block of (filePath, message, inMessage) \<Rightarrow> (filePath, message))
          (filter (\<lambda>block. block \<noteq> []) (map TrimSpace xs)))"
  by (induction xs arbitrary: r)
     (auto simp: parseBlock_def putCapture_def Let_def split: prod.splits)

lemma putCapture_only:
  "map_of (foldl putCapture r cs) k = Some v \<Longrightarrow>
     map_of r k = Some v \<or> (\<exists>m. (k, m) \<in> set cs \<and> k \<noteq> [] \<and> m \<noteq> [] \<and> v = TrimSpace m)"
proof (induction cs arbitrary: r)
  case Nil
  then show ?case by simp
next
  case (Cons c cs)
  from Cons.IH [OF Cons.prems [simplified]]
  show ?case
    by (cases c) (auto simp: putCapture_def update_conv' split: if_splits)
qed

lemma putCapture_skip:
  "\<forall>m. (k, m) \<in> set cs \<longrightarrow> m = [] \<Longrightarrow> map_of (foldl putCapture r cs) k = map_of r k"
  by (induction cs arbitrary: r) (auto simp: putCapture_def update_conv')

lemma putCapture_last:
  assumes "k \<noteq> []" "m \<noteq> []" "\<forall>m'. (k, m') \<in> set post \<longrightarrow> m' = []"
  shows "map_of (foldl putCapture r (pre @ (k, m) # post)) k = Some (TrimSpace m)"
  using assms by (simp add: putCapture_skip) (simp add: putCapture_def update_conv')

lemma putCapture_empty:
  "foldl putCapture r cs = [] \<longleftrightarrow> r = [] \<and> (\<forall>(k, m) \<in> set cs. k = [] \<or> m = [])"
proof (induction cs arbitrary: r)
  case Nil
  then show ?case by simp
next
  case (Cons c cs)
  have "AList.update a b r \<noteq> []" for a b :: string
    by (cases r) auto
  with Cons show ?case
    by (cases c) (auto simp: putCapture_def)
qed

section \<open>Lemmas about the prompt builder\<close>

lemma foldl_writes:
  assumes "\<And>sb x. f sb x = sb @ f [] x"
  shows "foldl f sb xs = sb @ concat (map (f []) xs)"
proof (induction xs arbitrary: sb)
  case Nil
  then show ?case by simp
next
  case (Cons x xs)
  have "foldl f sb (x # xs) = foldl f (f sb x) xs" by simp
  also have "\<dots> = f sb x @ concat (map (f []) xs)" by (rule Cons.IH)
  also have "\<dots> = (sb @ f [] x) @ concat (map (f []) xs)" by (subst assms) (rule refl)
  finally show ?case by simp
qed

lemma writeGranularChange_append: "writeGranularChange sb c = sb @ writeGranularChange [] c"
  by (simp add: writeGranularChange_def WriteString_def Let_def)

lemma writeSingleChange_append: "writeSingleChange sb c = sb @ writeSingleChange [] c"
  by (simp add: writeSingleChange_def WriteString_def Let_def)

lemma foldl_writeGranularChange:
  "foldl writeGranularChange sb cs = sb @ concat (map (writeGranularChange []) cs)"
  by (rule foldl_writes) (rule writeGranularChange_append)

lemma foldl_writeSingleChange:
  "foldl writeSingleChange sb cs = sb @ concat (map (writeSingleChange []) cs)"
  by (rule foldl_writes) (rule writeSingleChange_append)

lemma foldl_recent:
  "foldl (\<lambda>sb c. WriteString sb (''  '' @ c @ ''\<newline>'')) sb cs =
     sb @ concat (map (\<lambda>c. ''  '' @ c @ ''\<newline>'') cs)"
  by (induction cs arbitrary: sb) (simp_all add: WriteString_def)

lemma if_append_left:
  "(if c then s @ x else s @ y) = s @ (if c then x else y)"
  "(if c then s @ x else s) = s @ (if c then x else [])"
  by simp_all

lemma buildCommitPrompt_text:
  "buildCommitPrompt cfg changes granular recentCommits =
     ''You are an expert developer writing git commit messages.\<newline>\<newline>''
     @ (if CommitStyle cfg = ''conventional''
        then ''Use Conventional Commits format: <type>(<scope>): <description>\<newline>''
             @ ''Types: feat, fix, docs, style, refactor, test, chore, perf, ci, build\<newline>\<newline>''
        else [])
     @ (if Language cfg = ''pt'' \<or> Language cfg = ''pt-br''
        then ''Write commit messages in Portuguese (pt-BR).\<newline>\<newline>''
        else ''Write commit messages in English.\<newline>\<newline>'')
     @ (if 0 < length recentCommits
        then ''Recent commits for context:\<newline>''
             @ concat (map (\<lambda>c. ''  '' @ c @ ''\<newline>'') recentCommits) @ ''\<newline>''
        else [])
     @ (if granular
        then ''I have '' @ Itoa (length changes)
             @ '' staged file(s). Generate ONE commit message per file.\<newline>''
             @ ''Rules:\<newline>''
             @ ''- Each message must be concise (max 72 chars for subject line)\<newline>''
             @ ''- Add a blank line then a short body if needed\<newline>''
             @ ''- Output format must be EXACTLY:\<newline>\<newline>''
             @ ''FILE: <filepath>\<newline>MESSAGE:\<newline><commit message>\<newline>---\<newline>\<newline>''
             @ ''Now here are the diffs:\<newline>\<newline>''
             @ concat (map (writeGranularChange []) changes)
        else ''Generate ONE single commit message that summarizes ALL the following staged changes.\<newline>''
             @ ''Rules:\<newline>''
             @ ''- Subject line: max 72 chars\<newline>''
             @ ''- Add a blank line then bullet points listing key changes if there are multiple files\<newline>''
             @ ''- Output ONLY the commit message, nothing else.\<newline>\<newline>''
             @ ''Staged changes:\<newline>\<newline>''
             @ concat (map (writeSingleChange []) changes))"
  apply (simp only: buildCommitPrompt_def Let_def)
  apply (simp only: foldl_recent foldl_writeGranularChange foldl_writeSingleChange)
  apply (simp only: WriteString_def append_assoc append_Nil if_append_left)
  done

lemma granular_sections:
  "\<exists>H. \<forall>changes. length changes = n \<longrightarrow>
     buildCommitPrompt cfg changes True recentCommits =
       H @ concat (map (writeGranularChange []) changes)"
  apply (rule exI)
  apply (rule allI)
  apply (rule impI)
  apply (simp only: buildCommitPrompt_text if_True)
  apply (simp only: append_assoc [symmetric])
  done

lemma writeGranularChange_long:
  "3000 < length d \<Longrightarrow>
     writeGranularChange [] (c\<lparr>Diff := d\<rparr>) =
       ''FILE: '' @ Path c @ '' (status: '' @ Status c @ '')\<newline>''
       @ ''DIFF:\<newline>```\<newline>'' @ take 3000 d @ ''\<newline>... (truncated)'' @ ''\<newline>```\<newline>'' @ ''\<newline>''"
  by (cases d) (simp_all add: writeGranularChange_def WriteString_def Let_def)

lemma writeGranularChange_short:
  "d \<noteq> [] \<Longrightarrow> length d \<le> 3000 \<Longrightarrow>
     writeGranularChange [] (c\<lparr>Diff := d\<rparr>) =
       ''FILE: '' @ Path c @ '' (status: '' @ Status c @ '')\<newline>''
       @ ''DIFF:\<newline>```\<newline>'' @ d @ ''\<newline>```\<newline>'' @ ''\<newline>''"
  by (simp add: writeGranularChange_def WriteString_def Let_def)

section \<open>Lemmas about the version scan\<close>

lemma digit_char_iff:
  "c \<in> set ''0123456789'' \<longleftrightarrow>
     of_char (CHR ''0'') \<le> (of_char c :: nat) \<and> (of_char c :: nat) \<le> of_char (CHR ''9'')"
proof
  assume "c \<in> set ''0123456789''"
  then show "of_char (CHR ''0'') \<le> (of_char c :: nat) \<and> (of_char c :: nat) \<le> of_char (CHR ''9'')"
    by auto
next
  assume b: "of_char (CHR ''0'') \<le> (of_char c :: nat) \<and> (of_char c :: nat) \<le> of_char (CHR ''9'')"
  then have "(of_char c :: nat) \<in> of_char ` set ''0123456789''"
    by simp arith
  then obtain d where "d \<in> set ''0123456789''" and "(of_char c :: nat) = of_char d"
    by blast
  then show "c \<in> set ''0123456789''" by (simp only: of_char_eq_iff)
qed

lemma versionTest_iff:
  "(HasPrefix l ''v''
     \<or> (length l > 0 \<and> of_char (CHR ''0'') \<le> (of_char (l ! 0) :: nat)
                      \<and> (of_char (l ! 0) :: nat) \<le> of_char (CHR ''9'')))
   \<longleftrightarrow> startsWithVOrDigit l"
proof (cases l)
  case Nil
  then show ?thesis by (simp add: HasPrefix_def startsWithVOrDigit_def)
next
  case (Cons c cs)
  with digit_char_iff [of c] show ?thesis
    by (auto simp: HasPrefix_def startsWithVOrDigit_def)
qed

lemma versionLine_none:
  "\<forall>x \<in> set ls. \<not> startsWithVOrDigit (TrimSpace x) \<Longrightarrow> versionLine ls = None"
  by (induction ls) (simp_all only: versionLine.simps Let_def versionTest_iff, simp_all)

lemma versionLine_first:
  "\<forall>x \<in> set pre. \<not> startsWithVOrDigit (TrimSpace x) \<Longrightarrow> startsWithVOrDigit (TrimSpace l) \<Longrightarrow>
     versionLine (pre @ l # post) = Some (TrimPrefix (TrimSpace l) ''v'')"
  by (induction pre) (simp_all only: append.simps versionLine.simps Let_def versionTest_iff, simp_all)

section \<open>Lemmas about the diff scan\<close>

lemma diffLine_body:
  "\<forall>l \<in> set body. \<not> HasPrefix l ''diff --git '' \<Longrightarrow>
     foldl diffLine (result, currentFile, currentLines) body =
       (result, currentFile, currentLines @ body)"
  by (induction body arbitrary: currentLines) (simp_all add: diffLine_def)

lemma prefix_Join_hd: "prefix x (Join (x # xs) sep)"
  by (cases xs) simp_all

section \<open>Properties of the backend client\<close>

text \<open>
  Claim C4. On a reply body that deserialises to an envelope \<open>r\<close>, \<open>callGemini\<close>
  fails with the backend error carrying exactly the message of the envelope's error
  object when there is one; without an error object it fails with the empty-response
  error when the envelope has no candidate or its first candidate has no content part;
  otherwise it returns the text of the first part of the first candidate unchanged.
\<close>

theorem callGemini_envelope:
  assumes "unmarshal data = Inr r"
  shows "(\<forall>e. Error r = Some e \<longrightarrow>
            callGemini unmarshal (Body data) = Inl (''Gemini API error: '' @ Message e))
       \<and> (Error r = None \<and> Candidates r = [] \<longrightarrow>
            callGemini unmarshal (Body data) = Inl ''empty response from Gemini'')
       \<and> (\<forall>c cs. Error r = None \<and> Candidates r = c # cs \<and> Parts (Content c) = [] \<longrightarrow>
            callGemini unmarshal (Body data) = Inl ''empty response from Gemini'')
       \<and> (\<forall>c cs p ps. Error r = None \<and> Candidates r = c # cs \<and> Parts (Content c) = p # ps \<longrightarrow>
            callGemini unmarshal (Body data) = Inr (Text p))"
  using assms by (simp add: callGemini_def)

theorem callGemini_envelope_witness:
  "callGemini (\<lambda>d. Inr \<lparr>Candidates = [], Error = Some \<lparr>Message = ''quota exceeded''\<rparr>\<rparr>) (Body ''{}'')
     = Inl ''Gemini API error: quota exceeded''
   \<and> callGemini (\<lambda>d. Inr \<lparr>Candidates = [], Error = None\<rparr>) (Body ''{}'')
     = Inl ''empty response from Gemini''
   \<and> callGemini (\<lambda>d. Inr \<lparr>Candidates = [\<lparr>Content = \<lparr>Parts = []\<rparr>\<rparr>], Error = None\<rparr>) (Body ''{}'')
     = Inl ''empty response from Gemini''
   \<and> callGemini (\<lambda>d. Inr \<lparr>Candidates = [\<lparr>Content = \<lparr>Parts = [\<lparr>Text = '' fix: x ''\<rparr>]\<rparr>\<rparr>], Error = None\<rparr>) (Body ''{}'')
     = Inr '' fix: x ''"
proof -
  let ?r1 = "\<lparr>Candidates = [], Error = Some \<lparr>Message = ''quota exceeded''\<rparr>\<rparr>"
  let ?r2 = "\<lparr>Candidates = [], Error = None\<rparr>"
  let ?r3 = "\<lparr>Candidates = [\<lparr>Content = \<lparr>Parts = []\<rparr>\<rparr>], Error = None\<rparr>"
  let ?r4 = "\<lparr>Candidates = [\<lparr>Content = \<lparr>Parts = [\<lparr>Text = '' fix: x ''\<rparr>]\<rparr>\<rparr>], Error = None\<rparr>"
  show ?thesis
    using callGemini_envelope [of "\<lambda>d. Inr ?r1" "''{}''" ?r1]
      callGemini_envelope [of "\<lambda>d. Inr ?r2" "''{}''" ?r2]
      callGemini_envelope [of "\<lambda>d. Inr ?r3" "''{}''" ?r3]
      callGemini_envelope [of "\<lambda>d. Inr ?r4" "''{}''" ?r4]
    by simp
qed

text \<open>
  Claim C8. \<open>SuggestNextVersion\<close>, on a reply text \<open>raw\<close> that \<open>callGemini\<close> returned:
  it goes through the lines of the trimmed reply; the first line whose trimmed text
  starts with \<open>v\<close> or a digit decides the result, which is that trimmed line without
  one leading \<open>v\<close>; when no line qualifies the result is the whole trimmed reply. The
  reply \<open>"Explanation...\nv2.3.1\n"\<close> gives \<open>2.3.1\<close>: the witness below.
\<close>

theorem SuggestNextVersion_extract:
  assumes "callGemini unmarshal ex = Inr raw"
  shows "(\<forall>pre l post.
            Split (TrimSpace raw) ''\<newline>'' = pre @ l # post
            \<and> (\<forall>x \<in> set pre. \<not> startsWithVOrDigit (TrimSpace x))
            \<and> startsWithVOrDigit (TrimSpace l)
            \<longrightarrow> SuggestNextVersion unmarshal ex = Inr (TrimPrefix (TrimSpace l) ''v''))
       \<and> ((\<forall>x \<in> set (Split (TrimSpace raw) ''\<newline>''). \<not> startsWithVOrDigit (TrimSpace x))
            \<longrightarrow> SuggestNextVersion unmarshal ex = Inr (TrimSpace raw))"
  using assms
  by (auto simp: SuggestNextVersion_def versionLine_none versionLine_first)

theorem SuggestNextVersion_extract_witness:
  "SuggestNextVersion
     (\<lambda>data. Inr \<lparr>Candidates = [\<lparr>Content = \<lparr>Parts = [\<lparr>Text = data\<rparr>]\<rparr>\<rparr>], Error = None\<rparr>)
     (Body ''Explanation...\<newline>v2.3.1\<newline>'') = Inr ''2.3.1''
   \<and> SuggestNextVersion
     (\<lambda>data. Inr \<lparr>Candidates = [\<lparr>Content = \<lparr>Parts = [\<lparr>Text = data\<rparr>]\<rparr>\<rparr>], Error = None\<rparr>)
     (Body '' no number here\<newline>'') = Inr ''no number here''"
proof -
  let ?u = "\<lambda>data. Inr \<lparr>Candidates = [\<lparr>Content = \<lparr>Parts = [\<lparr>Text = data\<rparr>]\<rparr>\<rparr>], Error = None\<rparr>"
  let ?r1 = "''Explanation...\<newline>v2.3.1\<newline>''"
  let ?r2 = "'' no number here\<newline>''"
  have c1: "callGemini ?u (Body ?r1) = Inr ?r1" by (simp add: callGemini_def)
  have c2: "callGemini ?u (Body ?r2) = Inr ?r2" by (simp add: callGemini_def)
  have s1: "Split (TrimSpace ?r1) ''\<newline>'' = [''Explanation...''] @ ''v2.3.1'' # []" by code_simp
  have p1: "\<forall>x \<in> set [''Explanation...'']. \<not> startsWithVOrDigit (TrimSpace x)" by code_simp
  have l1: "startsWithVOrDigit (TrimSpace ''v2.3.1'')" by code_simp
  have t1: "TrimPrefix (TrimSpace ''v2.3.1'') ''v'' = ''2.3.1''" by code_simp
  have s2: "Split (TrimSpace ?r2) ''\<newline>'' = [''no number here'']" by code_simp
  have t2: "TrimSpace ?r2 = ''no number here''" by code_simp
  have p2: "\<forall>x \<in> set (Split (TrimSpace ?r2) ''\<newline>''). \<not> startsWithVOrDigit (TrimSpace x)"
    unfolding s2 by code_simp
  from SuggestNextVersion_extract [OF c1, THEN conjunct1, rule_format, of "[''Explanation...'']" "''v2.3.1''" "[]"]
    s1 p1 l1 t1
  have 1: "SuggestNextVersion ?u (Body ?r1) = Inr ''2.3.1''" by simp
  from SuggestNextVersion_extract [OF c2, THEN conjunct2, rule_format] p2 t2
  have 2: "SuggestNextVersion ?u (Body ?r2) = Inr ''no number here''" by simp
  from 1 2 show ?thesis by (simp only:)
qed

section \<open>Properties of the response parser\<close>

text \<open>
  Claim C9 (as amended). In single-message mode the result has the one entry
  \<open>__all__\<close>, and its value is the reply with leading and trailing white space removed
  (not the reply as it came: the source calls \<open>strings.TrimSpace\<close>).
\<close>

theorem parseCommitResponse_single:
  "parseCommitResponse raw changes False = [(''__all__'', TrimSpace raw)]"
  by (simp add: parseCommitResponse_def)

theorem parseCommitResponse_single_counterexample:
  "map_of (parseCommitResponse '' fix: x'' [] False) ''__all__'' \<noteq> Some '' fix: x''"
  by code_simp

theorem parseCommitResponse_single_witness:
  "parseCommitResponse '' fix: x'' [] False = [(''__all__'', ''fix: x'')]"
proof -
  have "TrimSpace '' fix: x'' = ''fix: x''" by code_simp
  with parseCommitResponse_single [of "'' fix: x''" "[]"] show ?thesis by simp
qed

text \<open>
  Claim C3. A block contributes an entry only if a non-empty path and a non-empty
  message were captured from it, and the last such block of a path decides its entry.
  First part: every entry \<open>k \<mapsto> v\<close> of the result in granular mode comes from a block
  that captured the non-empty path \<open>k\<close> and a non-empty message whose trimmed text is
  \<open>v\<close>; the only other source of entries is the fallback, which runs when no block
  captured both. Second part: when a block captured \<open>k\<close> with a non-empty message and no
  later block captured \<open>k\<close> with a non-empty message, the entry of \<open>k\<close> is the trimmed
  message of that block, whatever earlier blocks stored.
\<close>

theorem granular_entries:
  "(\<forall>k v. map_of (parseCommitResponse raw changes True) k = Some v \<longrightarrow>
      (\<exists>m. (k, m) \<in> set (blockCaptures raw) \<and> k \<noteq> [] \<and> m \<noteq> [] \<and> v = TrimSpace m)
      \<or> ((\<forall>(k', m') \<in> set (blockCaptures raw). k' = [] \<or> m' = [])
          \<and> k \<in> Path ` set changes \<and> v = TrimSpace raw))
   \<and> (\<forall>pre k m post.
        blockCaptures raw = pre @ (k, m) # post \<and> k \<noteq> [] \<and> m \<noteq> []
        \<and> (\<forall>m'. (k, m') \<in> set post \<longrightarrow> m' = [])
        \<longrightarrow> map_of (parseCommitResponse raw changes True) k = Some (TrimSpace m))"
proof -
  let ?res = "foldl parseBlock [] (Split raw ''---'')"
  have res: "?res = foldl putCapture [] (blockCaptures raw)"
    by (simp add: foldl_parseBlock blockCaptures_def)
  have empty: "?res = [] \<longleftrightarrow> (\<forall>(k, m) \<in> set (blockCaptures raw). k = [] \<or> m = [])"
    by (simp add: res putCapture_empty)
  show ?thesis
  proof (cases "?res = [] \<and> changes \<noteq> []")
    case True
    then have pc: "parseCommitResponse raw changes True =
        foldl (\<lambda>result c. AList.update (Path c) (TrimSpace raw) result) [] changes"
      by (simp add: parseCommitResponse_def)
    from True empty have none: "\<forall>(k, m) \<in> set (blockCaptures raw). k = [] \<or> m = []" by simp
    show ?thesis
    proof (intro conjI allI impI)
      fix k v
      assume "map_of (parseCommitResponse raw changes True) k = Some v"
      with none show "(\<exists>m. (k, m) \<in> set (blockCaptures raw) \<and> k \<noteq> [] \<and> m \<noteq> [] \<and> v = TrimSpace m)
        \<or> ((\<forall>(k', m') \<in> set (blockCaptures raw). k' = [] \<or> m' = [])
            \<and> k \<in> Path ` set changes \<and> v = TrimSpace raw)"
        by (auto simp: pc map_of_fallback split: if_splits)
    next
      fix pre k m post
      assume "blockCaptures raw = pre @ (k, m) # post \<and> k \<noteq> [] \<and> m \<noteq> []
        \<and> (\<forall>m'. (k, m') \<in> set post \<longrightarrow> m' = [])"
      with none have False by auto
      then show "map_of (parseCommitResponse raw changes True) k = Some (TrimSpace m)" ..
    qed
  next
    case False
    then have pc: "parseCommitResponse raw changes True = foldl putCapture [] (blockCaptures raw)"
      by (auto simp: parseCommitResponse_def res [symmetric])
    show ?thesis
    proof (intro conjI allI impI)
      fix k v
      assume "map_of (parseCommitResponse raw changes True) k = Some v"
      with putCapture_only [of "[]" "blockCaptures raw" k v]
      show "(\<exists>m. (k, m) \<in> set (blockCaptures raw) \<and> k \<noteq> [] \<and> m \<noteq> [] \<and> v = TrimSpace m)
        \<or> ((\<forall>(k', m') \<in> set (blockCaptures raw). k' = [] \<or> m' = [])
            \<and> k \<in> Path ` set changes \<and> v = TrimSpace raw)"
        by (simp add: pc)
    next
      fix pre k m post
      assume "blockCaptures raw = pre @ (k, m) # post \<and> k \<noteq> [] \<and> m \<noteq> []
        \<and> (\<forall>m'. (k, m') \<in> set post \<longrightarrow> m' = [])"
      then have bc: "blockCaptures raw = pre @ (k, m) # post"
        and k: "k \<noteq> []" and m: "m \<noteq> []" and post: "\<forall>m'. (k, m') \<in> set post \<longrightarrow> m' = []"
        by simp_all
      show "map_of (parseCommitResponse raw changes True) k = Some (TrimSpace m)"
        unfolding pc bc by (rule putCapture_last [OF k m post])
    qed
  qed
qed

theorem granular_entries_witness:
  "blockCaptures ''FILE: a\<newline>MESSAGE:\<newline>one\<newline>---\<newline>FILE: a\<newline>MESSAGE:\<newline>two\<newline>---\<newline>FILE: b\<newline>MESSAGE:\<newline>---''
     = [(''a'', ''one''), (''a'', ''two''), (''b'', [])]
   \<and> map_of (parseCommitResponse ''FILE: a\<newline>MESSAGE:\<newline>one\<newline>---\<newline>FILE: a\<newline>MESSAGE:\<newline>two\<newline>---\<newline>FILE: b\<newline>MESSAGE:\<newline>---'' [] True) ''a''
     = Some ''two''
   \<and> map_of (parseCommitResponse ''FILE: a\<newline>MESSAGE:\<newline>one\<newline>---\<newline>FILE: a\<newline>MESSAGE:\<newline>two\<newline>---\<newline>FILE: b\<newline>MESSAGE:\<newline>---'' [] True) ''b''
     = None"
proof -
  let ?raw = "''FILE: a\<newline>MESSAGE:\<newline>one\<newline>---\<newline>FILE: a\<newline>MESSAGE:\<newline>two\<newline>---\<newline>FILE: b\<newline>MESSAGE:\<newline>---''"
  have caps: "blockCaptures ?raw = [(''a'', ''one''), (''a'', ''two''), (''b'', [])]"
    by code_simp
  have trim: "TrimSpace ''two'' = ''two''" by code_simp
  note inst = granular_entries [of ?raw "[]"]
  have "map_of (parseCommitResponse ?raw [] True) ''a'' = Some (TrimSpace ''two'')"
    by (rule inst [THEN conjunct2, rule_format, of "[(''a'', ''one'')]" "''a''" "''two''" "[(''b'', [])]"])
       (simp add: caps)
  with trim have a: "map_of (parseCommitResponse ?raw [] True) ''a'' = Some ''two''"
    by simp
  have b: "map_of (parseCommitResponse ?raw [] True) ''b'' = None"
  proof (cases "map_of (parseCommitResponse ?raw [] True) ''b''")
    case None
    then show ?thesis .
  next
    case (Some v)
    from inst [THEN conjunct1, rule_format, OF Some] caps show ?thesis by simp
  qed
  from caps a b show ?thesis by simp
qed

text \<open>
  Claim C2. When the scan of the reply stores no entry and the change list is not
  empty, the result maps every path of the change list to the whole trimmed reply and
  has no other key; \<open>GenerateCommitMessages\<close> returns it as a result, not as an error.
\<close>

theorem granular_fallback:
  assumes "callGemini unmarshal ex = Inr raw"
    and "foldl parseBlock [] (Split raw ''---'') = []"
    and "changes \<noteq> []"
  shows "\<exists>result. GenerateCommitMessages unmarshal ex changes True = Inr result
           \<and> result = parseCommitResponse raw changes True
           \<and> (\<forall>c \<in> set changes. map_of result (Path c) = Some (TrimSpace raw))
           \<and> fst ` set result = Path ` set changes"
  using assms
  by (simp add: GenerateCommitMessages_def parseCommitResponse_def map_of_fallback keys_fallback)

theorem granular_fallback_witness:
  "\<exists>result.
     GenerateCommitMessages (\<lambda>data. Inr \<lparr>Candidates = [\<lparr>Content = \<lparr>Parts = [\<lparr>Text = data\<rparr>]\<rparr>\<rparr>], Error = None\<rparr>)
       (Body ''no framing at all'')
       [\<lparr>Path = ''x.go'', Status = ''M'', Diff = []\<rparr>, \<lparr>Path = ''y.go'', Status = ''A'', Diff = []\<rparr>] True
       = Inr result
     \<and> map_of result ''x.go'' = Some ''no framing at all''
     \<and> map_of result ''y.go'' = Some ''no framing at all''
     \<and> fst ` set result = {''x.go'', ''y.go''}"
proof -
  let ?u = "\<lambda>data. Inr \<lparr>Candidates = [\<lparr>Content = \<lparr>Parts = [\<lparr>Text = data\<rparr>]\<rparr>\<rparr>], Error = None\<rparr>"
  let ?raw = "''no framing at all''"
  let ?changes = "[\<lparr>Path = ''x.go'', Status = ''M'', Diff = []\<rparr>, \<lparr>Path = ''y.go'', Status = ''A'', Diff = []\<rparr>]"
  have h1: "callGemini ?u (Body ?raw) = Inr ?raw" by (simp add: callGemini_def)
  have h2: "foldl parseBlock [] (Split ?raw ''---'') = []" by code_simp
  have h3: "?changes \<noteq> []" by simp
  have trim: "TrimSpace ?raw = ?raw" by code_simp
  from granular_fallback [OF h1 h2 h3] trim show ?thesis by auto
qed

section \<open>Properties of the prompt builder\<close>

text \<open>
  Claim C5 (as amended). The language directive follows the role statement and the
  optional list of commit types. It is the Portuguese directive exactly when the
  configured language is \<open>pt\<close> or \<open>pt-br\<close>, compared as written (case-sensitively), and
  the English directive for every other value; the rest of the prompt does not depend
  on the configuration. A language written \<open>PT\<close> gets the English directive: the
  counterexample below.
\<close>

theorem language_directive:
  "\<exists>rest. \<forall>cfg.
     buildCommitPrompt cfg changes granular recentCommits =
       ''You are an expert developer writing git commit messages.\<newline>\<newline>''
       @ (if CommitStyle cfg = ''conventional''
          then ''Use Conventional Commits format: <type>(<scope>): <description>\<newline>''
               @ ''Types: feat, fix, docs, style, refactor, test, chore, perf, ci, build\<newline>\<newline>''
          else [])
       @ (if Language cfg = ''pt'' \<or> Language cfg = ''pt-br''
          then ''Write commit messages in Portuguese (pt-BR).\<newline>\<newline>''
          else ''Write commit messages in English.\<newline>\<newline>'')
       @ rest"
  apply (rule exI)
  apply (rule allI)
  apply (rule buildCommitPrompt_text)
  done

theorem language_directive_witness:
  "\<exists>rest.
     buildCommitPrompt \<lparr>GeminiAPIKey = ''k'', Language = ''pt-br'', CommitStyle = ''simple'',
         MaxTokens = 1024, Model = ''gemini-2.0-flash''\<rparr> [] False []
       = ''You are an expert developer writing git commit messages.\<newline>\<newline>''
         @ ''Write commit messages in Portuguese (pt-BR).\<newline>\<newline>'' @ rest
   \<and> buildCommitPrompt \<lparr>GeminiAPIKey = ''k'', Language = ''pt'', CommitStyle = ''simple'',
         MaxTokens = 1024, Model = ''gemini-2.0-flash''\<rparr> [] False []
       = ''You are an expert developer writing git commit messages.\<newline>\<newline>''
         @ ''Write commit messages in Portuguese (pt-BR).\<newline>\<newline>'' @ rest
   \<and> buildCommitPrompt \<lparr>GeminiAPIKey = ''k'', Language = ''es'', CommitStyle = ''simple'',
         MaxTokens = 1024, Model = ''gemini-2.0-flash''\<rparr> [] False []
       = ''You are an expert developer writing git commit messages.\<newline>\<newline>''
         @ ''Write commit messages in English.\<newline>\<newline>'' @ rest"
proof -
  from language_directive [of "[]" False "[]"] obtain rest where
    r: "\<And>cfg. buildCommitPrompt cfg [] False [] =
       ''You are an expert developer writing git commit messages.\<newline>\<newline>''
       @ (if CommitStyle cfg = ''conventional''
          then ''Use Conventional Commits format: <type>(<scope>): <description>\<newline>''
               @ ''Types: feat, fix, docs, style, refactor, test, chore, perf, ci, build\<newline>\<newline>''
          else [])
       @ (if Language cfg = ''pt'' \<or> Language cfg = ''pt-br''
          then ''Write commit messages in Portuguese (pt-BR).\<newline>\<newline>''
          else ''Write commit messages in English.\<newline>\<newline>'')
       @ rest"
    by blast
  show ?thesis
    by (rule exI [of _ rest]) (simp add: r)
qed

theorem language_directive_counterexample:
  "buildCommitPrompt \<lparr>GeminiAPIKey = ''k'', Language = ''PT'', CommitStyle = ''simple'',
       MaxTokens = 1024, Model = ''gemini-2.0-flash''\<rparr> [] False []
     = ''You are an expert developer writing git commit messages.\<newline>\<newline>''
       @ ''Write commit messages in English.\<newline>\<newline>''
       @ ''Generate ONE single commit message that summarizes ALL the following staged changes.\<newline>''
       @ ''Rules:\<newline>''
       @ ''- Subject line: max 72 chars\<newline>''
       @ ''- Add a blank line then bullet points listing key changes if there are multiple files\<newline>''
       @ ''- Output ONLY the commit message, nothing else.\<newline>\<newline>''
       @ ''Staged changes:\<newline>\<newline>''
   \<and> \<not> Contains (buildCommitPrompt \<lparr>GeminiAPIKey = ''k'', Language = ''PT'', CommitStyle = ''simple'',
       MaxTokens = 1024, Model = ''gemini-2.0-flash''\<rparr> [] False []) ''Portuguese''"
  by code_simp

text \<open>
  Claim C6. In granular mode the section of a file whose diff \<open>d\<close> is longer than 3000
  bytes holds the first 3000 bytes of \<open>d\<close> followed by the marker
  \<open>"\n... (truncated)"\<close>, and a diff of at most 3000 bytes (so also one of exactly
  3000) is embedded as it is. The text before the section (\<open>h\<close>) and behind it (\<open>t\<close>)
  is the same for every diff. Lengths are Go's \<open>len\<close>, counted in bytes.
\<close>

theorem granular_diff_truncation:
  "\<exists>h t. \<forall>d.
     (3000 < length d \<longrightarrow>
        buildCommitPrompt cfg (pre @ c\<lparr>Diff := d\<rparr> # post) True recentCommits =
          h @ ''FILE: '' @ Path c @ '' (status: '' @ Status c @ '')\<newline>''
            @ ''DIFF:\<newline>```\<newline>'' @ take 3000 d @ ''\<newline>... (truncated)'' @ ''\<newline>```\<newline>'' @ t)
   \<and> (d \<noteq> [] \<and> length d \<le> 3000 \<longrightarrow>
        buildCommitPrompt cfg (pre @ c\<lparr>Diff := d\<rparr> # post) True recentCommits =
          h @ ''FILE: '' @ Path c @ '' (status: '' @ Status c @ '')\<newline>''
            @ ''DIFF:\<newline>```\<newline>'' @ d @ ''\<newline>```\<newline>'' @ t)"
proof -
  from granular_sections [of "Suc (length pre + length post)" cfg recentCommits]
  obtain H where H: "\<And>changes. length changes = Suc (length pre + length post) \<Longrightarrow>
     buildCommitPrompt cfg changes True recentCommits =
       H @ concat (map (writeGranularChange []) changes)"
    by blast
  let ?h = "H @ concat (map (writeGranularChange []) pre)"
  let ?t = "''\<newline>'' @ concat (map (writeGranularChange []) post)"
  have P: "buildCommitPrompt cfg (pre @ c\<lparr>Diff := d\<rparr> # post) True recentCommits =
      ?h @ writeGranularChange [] (c\<lparr>Diff := d\<rparr>) @ concat (map (writeGranularChange []) post)" for d
    by (subst H) simp_all
  show ?thesis
  proof (rule exI [of _ ?h], rule exI [of _ ?t], intro allI conjI impI)
    fix d :: string
    assume "3000 < length d"
    then show "buildCommitPrompt cfg (pre @ c\<lparr>Diff := d\<rparr> # post) True recentCommits =
          ?h @ ''FILE: '' @ Path c @ '' (status: '' @ Status c @ '')\<newline>''
            @ ''DIFF:\<newline>```\<newline>'' @ take 3000 d @ ''\<newline>... (truncated)'' @ ''\<newline>```\<newline>'' @ ?t"
      by (simp only: P writeGranularChange_long append_assoc)
  next
    fix d :: string
    assume "d \<noteq> [] \<and> length d \<le> 3000"
    then have "d \<noteq> []" and "length d \<le> 3000" by simp_all
    note short = writeGranularChange_short [OF this, of c]
    show "buildCommitPrompt cfg (pre @ c\<lparr>Diff := d\<rparr> # post) True recentCommits =
          ?h @ ''FILE: '' @ Path c @ '' (status: '' @ Status c @ '')\<newline>''
            @ ''DIFF:\<newline>```\<newline>'' @ d @ ''\<newline>```\<newline>'' @ ?t"
      by (simp only: P short append_assoc)
  qed
qed

theorem granular_diff_truncation_witness:
  "\<exists>h t.
     buildCommitPrompt \<lparr>GeminiAPIKey = ''k'', Language = ''en'', CommitStyle = ''simple'',
         MaxTokens = 1024, Model = ''gemini-2.0-flash''\<rparr>
       [\<lparr>Path = ''a.go'', Status = ''M'', Diff = replicate 3001 (CHR ''x'')\<rparr>] True []
       = h @ ''FILE: a.go (status: M)\<newline>DIFF:\<newline>```\<newline>'' @ replicate 3000 (CHR ''x'')
           @ ''\<newline>... (truncated)\<newline>```\<newline>'' @ t
   \<and> buildCommitPrompt \<lparr>GeminiAPIKey = ''k'', Language = ''en'', CommitStyle = ''simple'',
         MaxTokens = 1024, Model = ''gemini-2.0-flash''\<rparr>
       [\<lparr>Path = ''a.go'', Status = ''M'', Diff = replicate 3000 (CHR ''x'')\<rparr>] True []
       = h @ ''FILE: a.go (status: M)\<newline>DIFF:\<newline>```\<newline>'' @ replicate 3000 (CHR ''x'')
           @ ''\<newline>```\<newline>'' @ t"
proof -
  let ?cfg = "\<lparr>GeminiAPIKey = ''k'', Language = ''en'', CommitStyle = ''simple'',
         MaxTokens = 1024, Model = ''gemini-2.0-flash''\<rparr>"
  let ?c = "\<lparr>Path = ''a.go'', Status = ''M'', Diff = []\<rparr>"
  from granular_diff_truncation [of ?cfg "[]" ?c "[]" "[]"] obtain h t where
    ht: "\<And>d. (3000 < length d \<longrightarrow>
        buildCommitPrompt ?cfg ([] @ ?c\<lparr>Diff := d\<rparr> # []) True [] =
          h @ ''FILE: '' @ Path ?c @ '' (status: '' @ Status ?c @ '')\<newline>''
            @ ''DIFF:\<newline>```\<newline>'' @ take 3000 d @ ''\<newline>... (truncated)'' @ ''\<newline>```\<newline>'' @ t)
   \<and> (d \<noteq> [] \<and> length d \<le> 3000 \<longrightarrow>
        buildCommitPrompt ?cfg ([] @ ?c\<lparr>Diff := d\<rparr> # []) True [] =
          h @ ''FILE: '' @ Path ?c @ '' (status: '' @ Status ?c @ '')\<newline>''
            @ ''DIFF:\<newline>```\<newline>'' @ d @ ''\<newline>```\<newline>'' @ t)"
    by blast
  have a: "buildCommitPrompt ?cfg
       [\<lparr>Path = ''a.go'', Status = ''M'', Diff = replicate 3001 (CHR ''x'')\<rparr>] True []
       = h @ ''FILE: a.go (status: M)\<newline>DIFF:\<newline>```\<newline>'' @ replicate 3000 (CHR ''x'')
           @ ''\<newline>... (truncated)\<newline>```\<newline>'' @ t"
    using ht [of "replicate 3001 (CHR ''x'')"] by simp
  have b: "buildCommitPrompt ?cfg
       [\<lparr>Path = ''a.go'', Status = ''M'', Diff = replicate 3000 (CHR ''x'')\<rparr>] True []
       = h @ ''FILE: a.go (status: M)\<newline>DIFF:\<newline>```\<newline>'' @ replicate 3000 (CHR ''x'')
           @ ''\<newline>```\<newline>'' @ t"
    using ht [of "replicate 3000 (CHR ''x'')"] by simp
  show ?thesis
    by (rule exI, rule exI, rule conjI, rule a, rule b)
qed

section \<open>Properties of the diff splitting\<close>

text \<open>
  Claim C7. A combined diff with a section for \<open>a.txt\<close> and a section for \<open>b/c.txt\<close>,
  whatever the lines of the two sections are (as long as none of them starts a further
  section), is split into a mapping with exactly the two keys \<open>a.txt\<close> and \<open>b/c.txt\<close>.
  Each key is the last piece of the section's \<open>diff --git\<close> line split at \<open>" b/"\<close>, and
  each value is the section as it stands in the combined diff, so it starts with the
  section's own \<open>diff --git\<close> line.
\<close>

theorem splitDiffByFile_two_sections:
  assumes "\<forall>l \<in> set (body1 @ body2). CHR ''\<newline>'' \<notin> set l \<and> \<not> HasPrefix l ''diff --git ''"
  shows "splitDiffByFile
           (Join (''diff --git a/a.txt b/a.txt'' # body1
                  @ ''diff --git a/b/c.txt b/b/c.txt'' # body2) ''\<newline>'')
         = [(''a.txt'', Join (''diff --git a/a.txt b/a.txt'' # body1) ''\<newline>''),
            (''b/c.txt'', Join (''diff --git a/b/c.txt b/b/c.txt'' # body2) ''\<newline>'')]
       \<and> last (Split ''diff --git a/a.txt b/a.txt'' '' b/'') = ''a.txt''
       \<and> last (Split ''diff --git a/b/c.txt b/b/c.txt'' '' b/'') = ''b/c.txt''
       \<and> prefix ''diff --git a/a.txt b/a.txt''
             (Join (''diff --git a/a.txt b/a.txt'' # body1) ''\<newline>'')
       \<and> prefix ''diff --git a/b/c.txt b/b/c.txt''
             (Join (''diff --git a/b/c.txt b/b/c.txt'' # body2) ''\<newline>'')"
proof -
  let ?h1 = "''diff --git a/a.txt b/a.txt''"
  let ?h2 = "''diff --git a/b/c.txt b/b/c.txt''"
  have s1: "Split ?h1 '' b/'' = [''diff --git a/a.txt'', ''a.txt'']" by code_simp
  have s2: "Split ?h2 '' b/'' = [''diff --git a/b/c.txt'', ''b/c.txt'']" by code_simp
  have p1: "HasPrefix ?h1 ''diff --git ''" and p2: "HasPrefix ?h2 ''diff --git ''"
    by (simp_all add: HasPrefix_def)
  have d1: "diffLine (result, currentFile, currentLines) ?h1 =
      (flushSection result currentFile currentLines, ''a.txt'', [?h1])"
    for result currentFile currentLines
    unfolding diffLine_def Let_def s1 using p1 by simp
  have d2: "diffLine (result, currentFile, currentLines) ?h2 =
      (flushSection result currentFile currentLines, ''b/c.txt'', [?h2])"
    for result currentFile currentLines
    unfolding diffLine_def Let_def s2 using p2 by simp
  from assms have b1: "\<forall>l \<in> set body1. \<not> HasPrefix l ''diff --git ''"
    and b2: "\<forall>l \<in> set body2. \<not> HasPrefix l ''diff --git ''"
    by simp_all
  let ?lines = "?h1 # body1 @ ?h2 # body2"
  have nl: "\<forall>l \<in> set ?lines. CHR ''\<newline>'' \<notin> set l"
    using assms by auto
  have lines: "Split (Join ?lines ''\<newline>'') ''\<newline>'' = ?lines"
    by (rule Split_Join_lines [OF _ nl]) simp
  have scan: "foldl diffLine ([], [], []) ?lines =
      ([(''a.txt'', Join (?h1 # body1) ''\<newline>'')], ''b/c.txt'', ?h2 # body2)"
    by (simp only: foldl_Cons foldl_append d1 d2 diffLine_body [OF b1] diffLine_body [OF b2])
       (simp add: flushSection_def)
  have "splitDiffByFile (Join ?lines ''\<newline>'') =
      [(''a.txt'', Join (?h1 # body1) ''\<newline>''), (''b/c.txt'', Join (?h2 # body2) ''\<newline>'')]"
    unfolding splitDiffByFile_def lines scan by (simp add: flushSection_def)
  then show ?thesis
    by (simp only: s1 s2 prefix_Join_hd) simp
qed

theorem splitDiffByFile_two_sections_witness:
  "splitDiffByFile ''diff --git a/a.txt b/a.txt\<newline>index 1..2 100644\<newline>--- a/a.txt\<newline>+++ b/a.txt\<newline>@@ -1 +1 @@\<newline>-old\<newline>+new\<newline>diff --git a/b/c.txt b/b/c.txt\<newline>new file mode 100644\<newline>+hello\<newline>''
     = [(''a.txt'', ''diff --git a/a.txt b/a.txt\<newline>index 1..2 100644\<newline>--- a/a.txt\<newline>+++ b/a.txt\<newline>@@ -1 +1 @@\<newline>-old\<newline>+new''),
        (''b/c.txt'', ''diff --git a/b/c.txt b/b/c.txt\<newline>new file mode 100644\<newline>+hello\<newline>'')]"
proof -
  let ?body1 = "[''index 1..2 100644'', ''--- a/a.txt'', ''+++ b/a.txt'', ''@@ -1 +1 @@'', ''-old'', ''+new'']"
  let ?body2 = "[''new file mode 100644'', ''+hello'', []]"
  have h: "\<forall>l \<in> set (?body1 @ ?body2). CHR ''\<newline>'' \<notin> set l \<and> \<not> HasPrefix l ''diff --git ''"
    by (simp add: HasPrefix_def)
  from splitDiffByFile_two_sections [OF h, THEN conjunct1]
  show ?thesis by simp
qed

section \<open>Properties of the configuration file\<close>

text \<open>
  Claim C10. When the environment variable \<open>GEMINI_API_KEY\<close> is not empty at the call,
  \<open>Save\<close> marshals the configuration with its API key field emptied (with the field's
  \<open>omitempty\<close> tag the key then does not appear in the JSON text at all), so what it
  writes is the same for any two configurations that differ only in their API key: the
  key held in memory does not reach the file. This holds for every marshaller, home
  directory and path join.
\<close>

theorem Save_env_key_not_written:
  assumes "Getenv sys EnvAPIKey \<noteq> []"
  shows "Save sys cfg =
           (case UserHomeDir sys of
              Inl err \<Rightarrow> Inl err
            | Inr home \<Rightarrow>
                (case MarshalIndent sys (cfg\<lparr>GeminiAPIKey := []\<rparr>) of
                   Inl err \<Rightarrow> Inl err
                 | Inr data \<Rightarrow> Inr (WriteFile (FilepathJoin sys home ConfigFileName) data)))
       \<and> (\<forall>key. Save sys (cfg\<lparr>GeminiAPIKey := key\<rparr>) = Save sys cfg)"
  using assms by (simp add: Save_def Let_def split: sum.splits)

theorem Save_env_key_not_written_witness:
  "Save \<lparr>UserHomeDir = Inr ''/home/u'',
         Getenv = (\<lambda>name. if name = ''GEMINI_API_KEY'' then ''env-secret'' else []),
         MarshalIndent = (\<lambda>c. Inr (''key='' @ GeminiAPIKey c @ '' lang='' @ Language c)),
         FilepathJoin = (\<lambda>dir name. dir @ ''/'' @ name)\<rparr>
       \<lparr>GeminiAPIKey = ''env-secret'', Language = ''en'', CommitStyle = ''conventional'',
        MaxTokens = 1024, Model = ''gemini-2.0-flash''\<rparr>
     = Inr (WriteFile ''/home/u/.commitai.json'' ''key= lang=en'')
   \<and> Save \<lparr>UserHomeDir = Inr ''/home/u'',
         Getenv = (\<lambda>name. if name = ''GEMINI_API_KEY'' then ''env-secret'' else []),
         MarshalIndent = (\<lambda>c. Inr (''key='' @ GeminiAPIKey c @ '' lang='' @ Language c)),
         FilepathJoin = (\<lambda>dir name. dir @ ''/'' @ name)\<rparr>
       (\<lparr>GeminiAPIKey = ''env-secret'', Language = ''en'', CommitStyle = ''conventional'',
        MaxTokens = 1024, Model = ''gemini-2.0-flash''\<rparr>\<lparr>GeminiAPIKey := ''other''\<rparr>)
     = Inr (WriteFile ''/home/u/.commitai.json'' ''key= lang=en'')"
proof -
  let ?sys = "\<lparr>UserHomeDir = Inr ''/home/u'',
         Getenv = (\<lambda>name. if name = ''GEMINI_API_KEY'' then ''env-secret'' else []),
         MarshalIndent = (\<lambda>c. Inr (''key='' @ GeminiAPIKey c @ '' lang='' @ Language c)),
         FilepathJoin = (\<lambda>dir name. dir @ ''/'' @ name)\<rparr>"
  let ?cfg = "\<lparr>GeminiAPIKey = ''env-secret'', Language = ''en'', CommitStyle = ''conventional'',
        MaxTokens = 1024, Model = ''gemini-2.0-flash''\<rparr>"
  have h: "Getenv ?sys EnvAPIKey \<noteq> []" by (simp add: EnvAPIKey_def)
  note inst = Save_env_key_not_written [OF h, of ?cfg]
  from inst [THEN conjunct1]
  have 1: "Save ?sys ?cfg = Inr (WriteFile ''/home/u/.commitai.json'' ''key= lang=en'')"
    by (simp add: ConfigFileName_def)
  from inst [THEN conjunct2, THEN spec, of "''other''"]
  have 2: "Save ?sys (?cfg\<lparr>GeminiAPIKey := ''other''\<rparr>) = Save ?sys ?cfg" .
  from 1 2 show ?thesis by (simp only:)
qed

end
